theory Spec2Isabelle
  imports Main "HOL-Library.AList"
begin

section \<open>NDJSON framing (agent-cli/src/transport.ts)\<close>

text \<open>
  A JavaScript string is modelled as a \<^typ>\<open>string\<close>, one \<^typ>\<open>char\<close> per code unit.
  \<open>JSON.parse\<close> and \<open>JSON.stringify\<close> belong to the runtime, not to the repository, so the
  transport takes them as parameters: \<open>parse\<close> returns \<open>None\<close> where \<open>JSON.parse\<close> throws.
  A chunk is given by its decoded text (\<open>chunk.toString("utf8")\<close>). The listeners of
  the transport's events are taken to return normally, as those of the server do.
\<close>

definition nl :: char where
  "nl = CHR 0x0A"

text \<open>The code units \<open>String.prototype.trim\<close> strips, in the 8-bit range of \<^typ>\<open>char\<close>.\<close>

definition is_ws :: "char \<Rightarrow> bool" where
  "is_ws c \<longleftrightarrow> c \<in> {CHR 0x09, CHR 0x0A, CHR 0x0B, CHR 0x0C, CHR 0x0D, CHR 0x20, CHR 0xA0}"

definition trim :: "string \<Rightarrow> string" where
  "trim s = rev (dropWhile is_ws (rev (dropWhile is_ws s)))"

text \<open>\<open>buffer.indexOf("\n")\<close>: the first index, \<open>None\<close> for \<open>-1\<close>.\<close>

fun indexOf :: "string \<Rightarrow> char \<Rightarrow> nat option" where
  "indexOf [] c = None"
| "indexOf (x # xs) c = (if x = c then Some 0 else map_option Suc (indexOf xs c))"

text \<open>What the transport emits: \<open>emit("message", v)\<close> or \<open>emit("error", new Error(text))\<close>.\<close>

datatype 'm transport_event = is_Message: Message 'm | Error string

record Socket =
  destroyed :: bool
  ended :: bool
  written :: "string list"

record NdjsonTransport =
  buffer :: string
  socket :: Socket

lemma indexOf_less: "indexOf s c = Some i \<Longrightarrow> i < length s"
  by (induction s arbitrary: i) (auto split: if_splits)

text \<open>
  The \<open>while\<close> loop of \<open>onData\<close>: cut the buffer at its first newline, trim the segment,
  skip it when empty, otherwise parse it and emit a message, or an error when the parse throws.
  The result is the events in emission order and the buffer that is left.
\<close>

function drain :: "(string \<Rightarrow> 'm option) \<Rightarrow> string \<Rightarrow> 'm transport_event list \<times> string" where
  "drain parse buf =
     (case indexOf buf nl of
        None \<Rightarrow> ([], buf)
      | Some newlineIndex \<Rightarrow>
          (let line = trim (take newlineIndex buf);
               buf' = drop (newlineIndex + 1) buf;
               evs = (if length line > 0
                      then (case parse line of
                              Some v \<Rightarrow> [Message v]
                            | None \<Rightarrow> [Error (''Invalid JSON: '' @ take 200 line)])
                      else []);
               (rest, left) = drain parse buf'
           in (evs @ rest, left)))"
  by pat_completeness auto
termination
  by (relation "measure (\<lambda>(parse, buf). length buf)") (auto dest: indexOf_less)

declare drain.simps [simp del]

definition onData :: "(string \<Rightarrow> 'm option) \<Rightarrow> NdjsonTransport \<Rightarrow> string
    \<Rightarrow> 'm transport_event list \<times> NdjsonTransport" where
  "onData parse t chunk =
     (let (evs, left) = drain parse (buffer t @ chunk) in (evs, t\<lparr>buffer := left\<rparr>))"

text \<open>\<open>send\<close>: a write to a destroyed socket is dropped.\<close>

definition send :: "('m \<Rightarrow> string) \<Rightarrow> NdjsonTransport \<Rightarrow> 'm \<Rightarrow> NdjsonTransport" where
  "send stringify t msg =
     (if \<not> destroyed (socket t)
      then t\<lparr>socket := (socket t)\<lparr>written := written (socket t) @ [stringify msg @ [nl]]\<rparr>\<rparr>
      else t)"

definition close_transport :: "NdjsonTransport \<Rightarrow> NdjsonTransport" where
  "close_transport t = t\<lparr>socket := (socket t)\<lparr>ended := True\<rparr>\<rparr>"

text \<open>The socket's \<open>data\<close> listener over a sequence of chunks, the events of all calls in order.\<close>

fun feed :: "(string \<Rightarrow> 'm option) \<Rightarrow> NdjsonTransport \<Rightarrow> string list
    \<Rightarrow> 'm transport_event list \<times> NdjsonTransport" where
  "feed parse t [] = ([], t)"
| "feed parse t (chunk # chunks) =
     (let (evs, t') = onData parse t chunk;
          (evs', t'') = feed parse t' chunks
      in (evs @ evs', t''))"


text \<open>
  The loop body seen from outside, on one raw segment (the text between two newlines):
  nothing for a blank segment, one message when it parses, one error when it does not.
\<close>

definition segment_events :: "(string \<Rightarrow> 'm option) \<Rightarrow> string \<Rightarrow> 'm transport_event list" where
  "segment_events parse seg =
     (let line = trim seg in
      if length line > 0
      then (case parse line of
              Some v \<Rightarrow> [Message v]
            | None \<Rightarrow> [Error (''Invalid JSON: '' @ take 200 line)])
      else [])"

text \<open>A stream of whole segments, each followed by its newline.\<close>

definition wire :: "string list \<Rightarrow> string" where
  "wire segs = concat (map (\<lambda>l. l @ [nl]) segs)"

subsection \<open>The loop, segment by segment\<close>

lemma indexOf_None: "indexOf s c = None \<longleftrightarrow> c \<notin> set s"
  by (induction s) auto

lemma indexOf_first: "c \<notin> set l \<Longrightarrow> indexOf (l @ c # rest) c = Some (length l)"
  by (induction l) auto

lemma indexOf_split:
  "indexOf s c = Some i \<Longrightarrow> s = take i s @ c # drop (Suc i) s \<and> c \<notin> set (take i s)"
proof (induction s arbitrary: i)
  case Nil
  then show ?case by simp
next
  case (Cons x xs)
  then show ?case by (cases i) (auto split: if_splits)
qed

lemma drain_no_newline: "nl \<notin> set t \<Longrightarrow> drain parse t = ([], t)"
  by (simp add: drain.simps [of parse t] indexOf_None [THEN iffD2])

lemma drain_segment:
  assumes "nl \<notin> set l"
  shows "drain parse (l @ nl # rest) =
           (segment_events parse l @ fst (drain parse rest), snd (drain parse rest))"
  using assms
  by (simp add: drain.simps [of parse "l @ nl # rest"] indexOf_first segment_events_def
      Let_def split: prod.splits)

lemma drain_wire:
  assumes "\<forall>l \<in> set segs. nl \<notin> set l" and "nl \<notin> set t"
  shows "drain parse (wire segs @ t) = (concat (map (segment_events parse) segs), t)"
  using assms
proof (induction segs)
  case Nil
  then show ?case by (simp add: wire_def drain_no_newline)
next
  case (Cons l segs)
  then have ih: "drain parse (wire segs @ t) = (concat (map (segment_events parse) segs), t)"
    by simp
  have "wire (l # segs) @ t = l @ nl # (wire segs @ t)"
    by (simp add: wire_def)
  with Cons.prems ih show ?case
    by (simp add: drain_segment)
qed

text \<open>Cutting the stream into chunks anywhere changes nothing: the buffer carries the rest.\<close>

lemma drain_append:
  "drain parse (a @ b) =
     (fst (drain parse a) @ fst (drain parse (snd (drain parse a) @ b)),
      snd (drain parse (snd (drain parse a) @ b)))"
proof (induction "length a" arbitrary: a rule: less_induct)
  case less
  show ?case
  proof (cases "indexOf a nl")
    case None
    then have "drain parse a = ([], a)"
      by (simp add: drain_no_newline indexOf_None)
    then show ?thesis by simp
  next
    case (Some i)
    from indexOf_split [OF Some]
    obtain l r where a: "a = l @ nl # r" and l: "nl \<notin> set l"
      by blast
    have "length r < length a" using a by simp
    from less [OF this] l show ?thesis
      by (simp add: a drain_segment)
  qed
qed

lemma drain_left_no_newline: "nl \<notin> set (snd (drain parse a))"
proof (induction "length a" arbitrary: a rule: less_induct)
  case less
  show ?case
  proof (cases "indexOf a nl")
    case None
    then show ?thesis
      by (simp add: drain_no_newline indexOf_None)
  next
    case (Some i)
    from indexOf_split [OF Some]
    obtain l r where a: "a = l @ nl # r" and l: "nl \<notin> set l"
      by blast
    have "length r < length a" using a by simp
    from less [OF this] l show ?thesis
      by (simp add: a drain_segment)
  qed
qed

lemma feed_drain:
  assumes "nl \<notin> set (buffer t)"
  shows "feed parse t chunks =
     (fst (drain parse (buffer t @ concat chunks)),
      t\<lparr>buffer := snd (drain parse (buffer t @ concat chunks))\<rparr>)"
  using assms
proof (induction chunks arbitrary: t)
  case Nil
  then show ?case
    by (simp add: drain_no_newline)
next
  case (Cons c cs)
  have "nl \<notin> set (buffer (snd (onData parse t c)))"
    using drain_left_no_newline [of parse "buffer t @ c"]
    by (auto simp: onData_def split: prod.splits)
  from Cons.IH [OF this] show ?case
    using drain_append [of parse "buffer t @ c" "concat cs"]
    by (auto simp: onData_def split: prod.splits)
qed

lemma segment_events_blank: "trim l = [] \<Longrightarrow> segment_events parse l = []"
  by (simp add: segment_events_def)

lemma segment_events_nonblank:
  "concat (map (segment_events parse) segs) =
   concat (map (segment_events parse) (filter (\<lambda>l. trim l \<noteq> []) segs))"
  by (induction segs) (simp_all add: segment_events_blank)

lemma segment_events_valid:
  "map (\<lambda>l. parse (trim l)) good = map Some msgs \<Longrightarrow> \<forall>l \<in> set good. trim l \<noteq> [] \<Longrightarrow>
   concat (map (segment_events parse) good) = map Message msgs"
  by (induction good arbitrary: msgs) (auto simp: segment_events_def)



section \<open>Protocol messages (agent-cli/src/protocol.ts)\<close>

text \<open>
  Untyped structured values (\<open>unknown\<close>, \<open>Record<string, unknown>\<close>): an object is the list
  of its properties in key order. Numbers are passed through untouched by the bridge; the
  model keeps the integers.
\<close>

datatype json =
    JNull
  | JBool bool
  | JNum int
  | JStr string
  | JArr "json list"
  | JObj "(string \<times> json) list"

type_synonym json_object = "(string \<times> json) list"

datatype permission_mode = ModeDefault | AcceptEdits | BypassPermissions | Plan

datatype setting_source = User | Project | Local

text \<open>The fields of \<open>StartSessionMessage\<close> that \<open>start\<close> reads; the session id is carried
  by the message constructor below.\<close>

record StartSessionMessage =
  start_cwd :: string
  start_prompt :: string
  start_systemPrompt :: "string option"
  start_model :: "string option"
  start_permissionMode :: "permission_mode option"
  start_allowedTools :: "string list option"
  start_settingSources :: "setting_source list option"

datatype behavior = BehaviorAllow | BehaviorDeny

text \<open>Inbound messages; the first argument of every constructor is \<open>sessionId\<close>.\<close>

datatype InboundMessage =
    StartSession string StartSessionMessage
  | SendPrompt string string
  | ResumeSession string string string string
  | PermissionResponse string string behavior "json_object option" "string option"
  | QuestionResponse string string "(string \<times> string) list"
  | Interrupt string
  | CloseSession string

datatype session_status = Started | Idle | Processing | Closed | Errored

text \<open>Outbound events; the first argument of every constructor is \<open>sessionId\<close>.\<close>

datatype OutboundMessage =
    AssistantText string string string
  | ToolUse string string string json string
  | ToolResult string string string json bool
  | PermissionRequest string string string json_object string "json list option"
  | Question string string "json option"
  | SystemEvent string string string "string list option" "string option" "string option"
  | ResultEvent string string bool "string option" json json json "string list option"
  | StreamDelta string string json
  | ErrorEvent string string
  | SessionStatus string session_status

section \<open>The engine's interface (Claude Agent SDK), as the session uses it\<close>

datatype PermissionResult = Allow json_object | Deny string

datatype system_prompt = CustomPrompt string | Preset string

text \<open>\<open>Options\<close> of a \<open>query\<close> call; \<open>canUseTool\<close> is always the calling session's
  \<open>handleCanUseTool\<close>.\<close>

record Options =
  opt_resume :: "string option"
  opt_cwd :: string
  opt_model :: "string option"
  opt_permissionMode :: "permission_mode option"
  opt_allowedTools :: "string list option"
  opt_settingSources :: "setting_source list option"
  opt_systemPrompt :: "system_prompt option"
  opt_includePartialMessages :: bool

text \<open>Content blocks of an assistant message, as \<open>handleAssistantMessage\<close> tells them apart.\<close>

datatype ContentBlock =
    TextBlock string
  | ToolUseBlock string string "json option"
  | ToolResultBlock string "json option" "bool option"
  | OtherBlock

datatype SDKMessage =
    SDKSystemMessage string string "string list option" "string option" "string option"
  | SDKAssistantMessage string "ContentBlock list option"
  | SDKResultMessage string bool "string option" json json json "string list option"
  | SDKPartialAssistantMessage string json
  | SDKUserMessage
  | SDKOtherMessage

text \<open>The \<open>opts\<close> of the \<open>canUseTool\<close> callback (the abort signal is not read).\<close>

record ToolOpts =
  toolUseID :: string
  suggestions :: "json list option"

text \<open>A thrown value: an \<open>Error\<close> with its message, or anything else with its \<open>String(err)\<close>.\<close>

datatype thrown = ErrorObject string | OtherValue string

fun error_text :: "thrown \<Rightarrow> string" where
  "error_text (ErrorObject message) = message"
| "error_text (OtherValue text) = text"

type_synonym query = nat

section \<open>AgentSession (agent-cli/src/session.ts)\<close>

text \<open>
  A pending request holds the payload of the decision; its \<open>resolve\<close> continuation is the one
  the request id names, and calling it is the effect \<open>Resolve\<close> below.
\<close>

record PendingRequest =
  toolInput :: json_object

text \<open>
  \<open>pendingRequests\<close> is a JavaScript \<open>Map\<close>: an association list in insertion order, read with
  \<^const>\<open>map_of\<close>, written with \<^const>\<open>AList.update\<close> and \<^const>\<open>AList.delete\<close>.
  \<open>sendToClient\<close> is the sink the session was constructed with.
\<close>

record 'k AgentSession =
  sessionId :: string
  sendToClient :: 'k
  activeQuery :: "query option"
  claudeSessionId :: "string option"
  pendingRequests :: "(string \<times> PendingRequest) list"
  requestCounter :: nat
  lastCwd :: string

text \<open>What a session method does to the outside, in order.\<close>

datatype effect =
    SendToClient OutboundMessage
  | Resolve string PermissionResult
  | CallQuery string Options
  | QueryInterrupt query
  | QueryClose query

text \<open>\<open>new AgentSession(sessionId, sendToClient)\<close>; \<open>cwd\<close> is \<open>process.cwd()\<close>.\<close>

definition new_AgentSession :: "string \<Rightarrow> 'k \<Rightarrow> string \<Rightarrow> 'k AgentSession" where
  "new_AgentSession sid sink cwd =
     \<lparr>sessionId = sid, sendToClient = sink, activeQuery = None, claudeSessionId = None,
      pendingRequests = [], requestCounter = 0, lastCwd = cwd\<rparr>"

text \<open>
  \<open>runQuery\<close> up to its first suspension. \<open>q\<close> is what the call \<open>query({prompt, options})\<close>
  does: return a handle, or throw. A throw is caught at once: \<open>catch\<close>, then \<open>finally\<close>.
\<close>

definition runQuery :: "'k AgentSession \<Rightarrow> string \<Rightarrow> Options \<Rightarrow> thrown + query
    \<Rightarrow> effect list \<times> 'k AgentSession" where
  "runQuery s prompt options q =
     (case q of
        Inr handle \<Rightarrow>
          ([SendToClient (SessionStatus (sessionId s) Processing), CallQuery prompt options],
           s\<lparr>activeQuery := Some handle\<rparr>)
      | Inl err \<Rightarrow>
          ([SendToClient (SessionStatus (sessionId s) Processing), CallQuery prompt options,
            SendToClient (ErrorEvent (sessionId s) (error_text err)),
            SendToClient (SessionStatus (sessionId s) Idle)],
           s\<lparr>activeQuery := None\<rparr>))"

text \<open>The rest of \<open>runQuery\<close>, resumed by the engine: the iteration throws (\<open>catch\<close>, then
  \<open>finally\<close>), or it ends (\<open>finally\<close>).\<close>

definition runQuery_catch :: "'k AgentSession \<Rightarrow> thrown \<Rightarrow> effect list \<times> 'k AgentSession" where
  "runQuery_catch s err =
     ([SendToClient (ErrorEvent (sessionId s) (error_text err)),
       SendToClient (SessionStatus (sessionId s) Idle)],
      s\<lparr>activeQuery := None\<rparr>)"

definition runQuery_finally :: "'k AgentSession \<Rightarrow> effect list \<times> 'k AgentSession" where
  "runQuery_finally s =
     ([SendToClient (SessionStatus (sessionId s) Idle)], s\<lparr>activeQuery := None\<rparr>)"

definition start :: "'k AgentSession \<Rightarrow> StartSessionMessage \<Rightarrow> thrown + query
    \<Rightarrow> effect list \<times> 'k AgentSession" where
  "start s config q =
     (let s1 = s\<lparr>lastCwd := start_cwd config\<rparr>;
          options = \<lparr>opt_resume = None, opt_cwd = start_cwd config, opt_model = start_model config,
                     opt_permissionMode = start_permissionMode config,
                     opt_allowedTools = start_allowedTools config,
                     opt_settingSources =
                       (case start_settingSources config of
                          None \<Rightarrow> Some [Project] | Some v \<Rightarrow> Some v),
                     opt_systemPrompt =
                       (case start_systemPrompt config of
                          None \<Rightarrow> Some (Preset ''claude_code'') | Some v \<Rightarrow> Some (CustomPrompt v)),
                     opt_includePartialMessages = True\<rparr>;
          (effs, s2) = runQuery s1 (start_prompt config) options q
      in (SendToClient (SessionStatus (sessionId s) Started) # effs, s2))"

text \<open>\<open>!this.claudeSessionId\<close>: \<open>null\<close> and the empty string are falsy.\<close>

fun falsy :: "string option \<Rightarrow> bool" where
  "falsy None = True"
| "falsy (Some v) = (v = [])"

definition sendPrompt :: "'k AgentSession \<Rightarrow> string \<Rightarrow> thrown + query
    \<Rightarrow> effect list \<times> 'k AgentSession" where
  "sendPrompt s prompt q =
     (if falsy (claudeSessionId s)
      then ([SendToClient (ErrorEvent (sessionId s) ''No active session to send prompt to'')], s)
      else runQuery s prompt
             \<lparr>opt_resume = claudeSessionId s, opt_cwd = lastCwd s, opt_model = None,
              opt_permissionMode = None, opt_allowedTools = None, opt_settingSources = None,
              opt_systemPrompt = None, opt_includePartialMessages = True\<rparr> q)"

definition resume :: "'k AgentSession \<Rightarrow> string \<Rightarrow> string \<Rightarrow> string \<Rightarrow> thrown + query
    \<Rightarrow> effect list \<times> 'k AgentSession" where
  "resume s claudeId prompt cwd q =
     runQuery (s\<lparr>lastCwd := cwd\<rparr>) prompt
       \<lparr>opt_resume = Some claudeId, opt_cwd = cwd, opt_model = None,
        opt_permissionMode = None, opt_allowedTools = None, opt_settingSources = None,
        opt_systemPrompt = None, opt_includePartialMessages = True\<rparr> q"

definition interrupt :: "'k AgentSession \<Rightarrow> effect list \<times> 'k AgentSession" where
  "interrupt s =
     (case activeQuery s of
        Some handle \<Rightarrow> ([QueryInterrupt handle], s)
      | None \<Rightarrow> ([], s))"

definition close :: "'k AgentSession \<Rightarrow> effect list \<times> 'k AgentSession" where
  "close s =
     ((case activeQuery s of Some handle \<Rightarrow> [QueryClose handle] | None \<Rightarrow> [])
        @ map (\<lambda>(requestId, pending). Resolve requestId (Deny ''Session closed''))
            (pendingRequests s)
        @ [SendToClient (SessionStatus (sessionId s) Closed)],
      s\<lparr>activeQuery := None, pendingRequests := []\<rparr>)"

definition resolvePermission :: "'k AgentSession \<Rightarrow> string \<Rightarrow> behavior \<Rightarrow> json_object option
    \<Rightarrow> string option \<Rightarrow> effect list \<times> 'k AgentSession" where
  "resolvePermission s requestId b updatedInput message =
     (case map_of (pendingRequests s) requestId of
        None \<Rightarrow> ([], s)
      | Some pending \<Rightarrow>
          (let s' = s\<lparr>pendingRequests := AList.delete requestId (pendingRequests s)\<rparr>
           in if b = BehaviorAllow
              then ([Resolve requestId
                       (Allow (case updatedInput of None \<Rightarrow> toolInput pending | Some v \<Rightarrow> v))], s')
              else ([Resolve requestId
                       (Deny (case message of None \<Rightarrow> ''Denied by user'' | Some v \<Rightarrow> v))], s')))"

text \<open>\<open>{ ...pending.toolInput, answers }\<close>: the payload's properties, with the property
  \<open>answers\<close> set to the answers object (replaced in place when the payload has one).\<close>

definition answers_value :: "(string \<times> string) list \<Rightarrow> json" where
  "answers_value answers = JObj (map (\<lambda>(k, v). (k, JStr v)) answers)"

definition resolveQuestion :: "'k AgentSession \<Rightarrow> string \<Rightarrow> (string \<times> string) list
    \<Rightarrow> effect list \<times> 'k AgentSession" where
  "resolveQuestion s requestId answers =
     (case map_of (pendingRequests s) requestId of
        None \<Rightarrow> ([], s)
      | Some pending \<Rightarrow>
          ([Resolve requestId
              (Allow (AList.update ''answers'' (answers_value answers) (toolInput pending)))],
           s\<lparr>pendingRequests := AList.delete requestId (pendingRequests s)\<rparr>))"

subsection \<open>Forwarding engine messages\<close>

definition handleSystemMessage :: "'k AgentSession \<Rightarrow> string \<Rightarrow> string \<Rightarrow> string list option
    \<Rightarrow> string option \<Rightarrow> string option \<Rightarrow> effect list \<times> 'k AgentSession" where
  "handleSystemMessage s subtype session_id tools model cwd =
     ([SendToClient (SystemEvent (sessionId s) subtype session_id tools model cwd)],
      s\<lparr>claudeSessionId := Some session_id\<rparr>)"

text \<open>The loop over the content blocks: the tool events in order, and the text parts.\<close>

fun content_blocks :: "string \<Rightarrow> string \<Rightarrow> ContentBlock list \<Rightarrow> OutboundMessage list \<times> string list" where
  "content_blocks sid uuid [] = ([], [])"
| "content_blocks sid uuid (block # blocks) =
     (let (events, textParts) = content_blocks sid uuid blocks
      in case block of
           TextBlock text \<Rightarrow> (events, text # textParts)
         | ToolUseBlock block_id name input \<Rightarrow>
             (ToolUse sid uuid name (case input of Some v \<Rightarrow> v | None \<Rightarrow> JObj []) block_id
                # events,
              textParts)
         | ToolResultBlock tool_use_id content is_error \<Rightarrow>
             (ToolResult sid uuid tool_use_id (case content of Some v \<Rightarrow> v | None \<Rightarrow> JNull)
                (case is_error of Some v \<Rightarrow> v | None \<Rightarrow> False) # events,
              textParts)
         | OtherBlock \<Rightarrow> (events, textParts))"

definition handleAssistantMessage :: "'k AgentSession \<Rightarrow> string \<Rightarrow> ContentBlock list option
    \<Rightarrow> effect list \<times> 'k AgentSession" where
  "handleAssistantMessage s uuid content =
     (case content of
        None \<Rightarrow> ([], s)
      | Some blocks \<Rightarrow>
          (let (events, textParts) = content_blocks (sessionId s) uuid blocks
           in (map SendToClient events
                 @ (if length textParts > 0
                    then [SendToClient (AssistantText (sessionId s) uuid (concat textParts))]
                    else []),
               s)))"

definition forwardMessage :: "'k AgentSession \<Rightarrow> SDKMessage \<Rightarrow> effect list \<times> 'k AgentSession" where
  "forwardMessage s msg =
     (case msg of
        SDKSystemMessage subtype session_id tools model cwd \<Rightarrow>
          handleSystemMessage s subtype session_id tools model cwd
      | SDKAssistantMessage uuid content \<Rightarrow> handleAssistantMessage s uuid content
      | SDKResultMessage subtype is_error result cost duration turns errors \<Rightarrow>
          ([SendToClient
              (ResultEvent (sessionId s) subtype is_error result cost duration turns errors)], s)
      | SDKPartialAssistantMessage uuid event \<Rightarrow>
          ([SendToClient (StreamDelta (sessionId s) uuid event)], s)
      | SDKUserMessage \<Rightarrow> ([], s)
      | SDKOtherMessage \<Rightarrow> ([], s))"

subsection \<open>The decision callback\<close>

text \<open>A number in a template literal: its decimal digits.\<close>

definition digit_char :: "nat \<Rightarrow> char" where
  "digit_char d = ''0123456789'' ! d"

function string_of_nat :: "nat \<Rightarrow> string" where
  "string_of_nat n =
     (if n < 10 then [digit_char n] else string_of_nat (n div 10) @ [digit_char (n mod 10)])"
  by pat_completeness auto
termination
  by (relation "measure id") auto

declare string_of_nat.simps [simp del]

text \<open>
  \<open>++this.requestCounter\<close> on a JavaScript number: exact below \<open>2^53\<close>, where the sum
  rounds back to \<open>2^53\<close> and the counter stops.
\<close>

definition increment :: "nat \<Rightarrow> nat" where
  "increment n = (if n < 2 ^ 53 then n + 1 else n)"

definition handleCanUseTool :: "'k AgentSession \<Rightarrow> string \<Rightarrow> json_object \<Rightarrow> ToolOpts
    \<Rightarrow> effect list \<times> 'k AgentSession" where
  "handleCanUseTool s toolName input opts =
     (let counter = increment (requestCounter s);
          requestId = ''req_'' @ string_of_nat counter
      in ([SendToClient
             (if toolName = ''AskUserQuestion''
              then Question (sessionId s) requestId (map_of input ''questions'')
              else PermissionRequest (sessionId s) requestId toolName input (toolUseID opts)
                     (suggestions opts))],
          s\<lparr>requestCounter := counter,
            pendingRequests :=
              AList.update requestId \<lparr>toolInput = input\<rparr> (pendingRequests s)\<rparr>))"

subsection \<open>A session's life as a sequence of calls\<close>

text \<open>
  JavaScript runs each call to completion before the next one starts. A session's history is
  the sequence of the calls made on it: its public methods, and the engine resuming it
  (a message of the iteration, the decision callback, the end or the failure of an iteration).
\<close>

datatype session_call =
    CallStart StartSessionMessage "thrown + query"
  | CallSendPrompt string "thrown + query"
  | CallResume string string string "thrown + query"
  | CallInterrupt
  | CallClose
  | CallResolvePermission string behavior "json_object option" "string option"
  | CallResolveQuestion string "(string \<times> string) list"
  | EngineMessage SDKMessage
  | EngineCanUseTool string json_object ToolOpts
  | EngineDone
  | EngineThrow thrown

fun session_step :: "'k AgentSession \<Rightarrow> session_call \<Rightarrow> effect list \<times> 'k AgentSession" where
  "session_step s (CallStart config q) = start s config q"
| "session_step s (CallSendPrompt prompt q) = sendPrompt s prompt q"
| "session_step s (CallResume claudeId prompt cwd q) = resume s claudeId prompt cwd q"
| "session_step s CallInterrupt = interrupt s"
| "session_step s CallClose = close s"
| "session_step s (CallResolvePermission requestId b updatedInput message) =
     resolvePermission s requestId b updatedInput message"
| "session_step s (CallResolveQuestion requestId answers) = resolveQuestion s requestId answers"
| "session_step s (EngineMessage msg) = forwardMessage s msg"
| "session_step s (EngineCanUseTool toolName input opts) = handleCanUseTool s toolName input opts"
| "session_step s EngineDone = runQuery_finally s"
| "session_step s (EngineThrow err) = runQuery_catch s err"

fun session_run :: "'k AgentSession \<Rightarrow> session_call list \<Rightarrow> effect list \<times> 'k AgentSession" where
  "session_run s [] = ([], s)"
| "session_run s (c # cs) =
     (let (effs, s') = session_step s c;
          (effs', s'') = session_run s' cs
      in (effs @ effs', s''))"

section \<open>AgentServer (agent-cli/src/server.ts)\<close>

text \<open>
  Sessions are objects: the registry maps a session id to a reference, and the store \<open>objects\<close>
  holds every \<open>AgentSession\<close> constructed so far at its reference, also those the registry no
  longer names. A transport is named by a number; the sink of a session the server constructs
  is the transport it was started on.
\<close>

type_synonym ref = nat

record AgentServer =
  sessions :: "(string \<times> ref) list"
  transports :: "nat list"
  objects :: "nat AgentSession list"

text \<open>What the server does to the outside: \<open>transport.send(msg)\<close> on a transport,
  \<open>console.error\<close>, and the other effects of a session, tagged with the session object.\<close>

datatype server_output =
    TransportSend nat OutboundMessage
  | ConsoleError string
  | SessionEffect ref effect

text \<open>The sink \<open>(outMsg) => transport.send(outMsg)\<close> of the session object \<open>a\<close>.\<close>

definition deliver :: "ref \<Rightarrow> nat \<Rightarrow> effect \<Rightarrow> server_output" where
  "deliver a transport e =
     (case e of
        SendToClient msg \<Rightarrow> TransportSend transport msg
      | _ \<Rightarrow> SessionEffect a e)"

text \<open>A method call on the object at \<open>a\<close>. The registry only ever holds references of
  constructed objects; for any other number nothing happens.\<close>

definition on_session :: "AgentServer \<Rightarrow> ref
    \<Rightarrow> (nat AgentSession \<Rightarrow> effect list \<times> nat AgentSession) \<Rightarrow> server_output list \<times> AgentServer" where
  "on_session w a method =
     (if a < length (objects w)
      then (let s = objects w ! a;
                (effs, s') = method s
            in (map (deliver a (sendToClient s)) effs, w\<lparr>objects := (objects w)[a := s']\<rparr>))
      else ([], w))"

definition quoted :: "string \<Rightarrow> string" where
  "quoted sid = CHR 0x27 # sid @ [CHR 0x27]"

definition getSession :: "AgentServer \<Rightarrow> string \<Rightarrow> server_output list \<times> ref option" where
  "getSession w sid =
     (case map_of (sessions w) sid of
        None \<Rightarrow> ([ConsoleError (''[server] session '' @ quoted sid @ '' not found'')], None)
      | Some a \<Rightarrow> ([], Some a))"

text \<open>In the three functions that may construct a session, \<open>process_cwd\<close> is \<open>process.cwd()\<close> and
  \<open>q\<close> is what the engine's \<open>query\<close> does when the call reaches it.\<close>

definition startSession :: "string \<Rightarrow> thrown + query \<Rightarrow> AgentServer \<Rightarrow> nat \<Rightarrow> string
    \<Rightarrow> StartSessionMessage \<Rightarrow> server_output list \<times> AgentServer" where
  "startSession process_cwd q w transport sid config =
     (if map_of (sessions w) sid \<noteq> None
      then ([TransportSend transport
               (ErrorEvent sid (''Session '' @ quoted sid @ '' already exists''))], w)
      else (let a = length (objects w);
                w' = w\<lparr>objects := objects w @ [new_AgentSession sid transport process_cwd],
                       sessions := AList.update sid a (sessions w)\<rparr>
            in on_session w' a (\<lambda>s. start s config q)))"

definition resumeSession :: "string \<Rightarrow> thrown + query \<Rightarrow> AgentServer \<Rightarrow> nat \<Rightarrow> string
    \<Rightarrow> string \<Rightarrow> string \<Rightarrow> string \<Rightarrow> server_output list \<times> AgentServer" where
  "resumeSession process_cwd q w transport sid claudeId prompt cwd =
     (let a = length (objects w);
          w' = w\<lparr>objects := objects w @ [new_AgentSession sid transport process_cwd],
                 sessions := AList.update sid a (sessions w)\<rparr>
      in on_session w' a (\<lambda>s. resume s claudeId prompt cwd q))"

text \<open>
  \<open>closeSession\<close> up to its \<open>await\<close>: \<open>session.close()\<close> runs at once, or the error is
  sent. The registry entry is deleted only when the \<open>await\<close> resumes, after the run that
  handles the current chunk: until then the id is still registered. The deletion is the event
  \<open>CloseSettled\<close> below.
\<close>

definition closeSession :: "AgentServer \<Rightarrow> nat \<Rightarrow> string \<Rightarrow> server_output list \<times> AgentServer" where
  "closeSession w transport sid =
     (case map_of (sessions w) sid of
        Some a \<Rightarrow> on_session w a close
      | None \<Rightarrow>
          ([TransportSend transport
              (ErrorEvent sid (''Session '' @ quoted sid @ '' not found''))], w))"

text \<open>\<open>this.getSession(id)?.method(...)\<close>.\<close>

definition with_session :: "AgentServer \<Rightarrow> string
    \<Rightarrow> (nat AgentSession \<Rightarrow> effect list \<times> nat AgentSession) \<Rightarrow> server_output list \<times> AgentServer" where
  "with_session w sid method =
     (let (logs, found) = getSession w sid
      in case found of
           None \<Rightarrow> (logs, w)
         | Some a \<Rightarrow> (let (outs, w') = on_session w a method in (logs @ outs, w')))"

fun handleMessage :: "string \<Rightarrow> thrown + query \<Rightarrow> AgentServer \<Rightarrow> nat \<Rightarrow> InboundMessage
    \<Rightarrow> server_output list \<times> AgentServer" where
  "handleMessage process_cwd q w transport (StartSession sid config) =
     startSession process_cwd q w transport sid config"
| "handleMessage process_cwd q w transport (SendPrompt sid prompt) =
     with_session w sid (\<lambda>s. sendPrompt s prompt q)"
| "handleMessage process_cwd q w transport (ResumeSession sid claudeId prompt cwd) =
     resumeSession process_cwd q w transport sid claudeId prompt cwd"
| "handleMessage process_cwd q w transport (PermissionResponse sid requestId b updatedInput message) =
     with_session w sid (\<lambda>s. resolvePermission s requestId b updatedInput message)"
| "handleMessage process_cwd q w transport (QuestionResponse sid requestId answers) =
     with_session w sid (\<lambda>s. resolveQuestion s requestId answers)"
| "handleMessage process_cwd q w transport (Interrupt sid) = with_session w sid interrupt"
| "handleMessage process_cwd q w transport (CloseSession sid) = closeSession w transport sid"

text \<open>The listeners \<open>onConnection\<close> installs, the calls that reach a session object from
  outside the server (the engine resuming it), and \<open>closeSession\<close> resuming after its
  \<open>await\<close> with \<open>this.sessions.delete(sessionId)\<close>.\<close>

datatype event =
    Connect nat
  | Disconnect nat
  | Receive nat InboundMessage "thrown + query"
  | TransportError nat string
  | Invoke ref session_call
  | CloseSettled string

fun server_step :: "string \<Rightarrow> AgentServer \<Rightarrow> event \<Rightarrow> server_output list \<times> AgentServer" where
  "server_step process_cwd w (Connect transport) =
     ([], w\<lparr>transports := (if transport \<in> set (transports w) then transports w
                             else transports w @ [transport])\<rparr>)"
| "server_step process_cwd w (Disconnect transport) =
     ([], w\<lparr>transports := removeAll transport (transports w)\<rparr>)"
| "server_step process_cwd w (Receive transport msg q) = handleMessage process_cwd q w transport msg"
| "server_step process_cwd w (TransportError transport message) =
     ([ConsoleError (''[transport] error: '' @ message)], w)"
| "server_step process_cwd w (Invoke a call) = on_session w a (\<lambda>s. session_step s call)"
| "server_step process_cwd w (CloseSettled sid) =
     ([], w\<lparr>sessions := AList.delete sid (sessions w)\<rparr>)"

fun server_run :: "string \<Rightarrow> AgentServer \<Rightarrow> event list \<Rightarrow> server_output list \<times> AgentServer" where
  "server_run process_cwd w [] = ([], w)"
| "server_run process_cwd w (e # es) =
     (let (outs, w') = server_step process_cwd w e;
          (outs', w'') = server_run process_cwd w' es
      in (outs @ outs', w''))"

section \<open>JSON text\<close>

text \<open>
  \<open>JSON.stringify\<close> and \<open>JSON.parse\<close> are the runtime's (ECMA-262, 25.5), written out here
  on the values this theory has: strings of code units up to \<open>0xFF\<close>, integers, arrays, and
  objects as property lists.
\<close>

subsection \<open>Writing\<close>








subsection \<open>Reading\<close>



definition is_digit :: "char \<Rightarrow> bool" where
  "is_digit c \<longleftrightarrow> c \<in> set ''0123456789''"









definition index_key :: "string \<Rightarrow> bool" where
  "index_key k \<longleftrightarrow> k \<noteq> [] \<and> list_all is_digit k"







subsection \<open>Protocol messages as JSON values\<close>









datatype message = Inbound InboundMessage | Outbound OutboundMessage



section \<open>Observations on a history\<close>

text \<open>The request ids resolved by a list of effects, in order, and with their decisions.\<close>

fun resolved_ids :: "effect list \<Rightarrow> string list" where
  "resolved_ids [] = []"
| "resolved_ids (Resolve requestId result # effs) = requestId # resolved_ids effs"
| "resolved_ids (e # effs) = resolved_ids effs"

fun resolutions :: "effect list \<Rightarrow> (string \<times> PermissionResult) list" where
  "resolutions [] = []"
| "resolutions (Resolve requestId result # effs) = (requestId, result) # resolutions effs"
| "resolutions (e # effs) = resolutions effs"

text \<open>The \<open>query\<close> calls among the effects.\<close>

fun query_calls :: "effect list \<Rightarrow> (string \<times> Options) list" where
  "query_calls [] = []"
| "query_calls (CallQuery prompt options # effs) = (prompt, options) # query_calls effs"
| "query_calls (e # effs) = query_calls effs"

text \<open>The request id a call resolves; the calls that are a decision callback; the calls that
  hand the session a system message.\<close>

fun request_of :: "session_call \<Rightarrow> string option" where
  "request_of (CallResolvePermission requestId b updatedInput message) = Some requestId"
| "request_of (CallResolveQuestion requestId answers) = Some requestId"
| "request_of c = None"

fun is_decision :: "session_call \<Rightarrow> bool" where
  "is_decision (EngineCanUseTool toolName input opts) = True"
| "is_decision c = False"

fun captures :: "session_call \<Rightarrow> bool" where
  "captures (EngineMessage (SDKSystemMessage subtype session_id tools model cwd)) = True"
| "captures c = False"

text \<open>
  The ids issued up to a counter value, and the invariant of a session with the ids resolved
  so far: the table has no id twice, no id is resolved twice, no resolved id is still pending,
  and every id seen was issued.
\<close>

definition issued :: "nat \<Rightarrow> string set" where
  "issued n = (\<lambda>k. ''req_'' @ string_of_nat k) ` {..n}"

definition tracked :: "'k AgentSession \<Rightarrow> string list \<Rightarrow> bool" where
  "tracked s done \<longleftrightarrow>
     distinct (map fst (pendingRequests s)) \<and> distinct done
     \<and> set done \<inter> fst ` set (pendingRequests s) = {}
     \<and> set done \<union> fst ` set (pendingRequests s) \<subseteq> issued (requestCounter s)"

section \<open>Properties of the session\<close>

subsection \<open>Request ids\<close>

lemma resolved_ids_append: "resolved_ids (a @ b) = resolved_ids a @ resolved_ids b"
  by (induction a rule: resolved_ids.induct) simp_all

lemma digit_char_inj: "a < 10 \<Longrightarrow> b < 10 \<Longrightarrow> digit_char a = digit_char b \<Longrightarrow> a = b"
proof -
  have "distinct ''0123456789''" by simp
  then show "a < 10 \<Longrightarrow> b < 10 \<Longrightarrow> digit_char a = digit_char b \<Longrightarrow> a = b"
    unfolding digit_char_def by (subst (asm) nth_eq_iff_index_eq) simp_all
qed

lemma string_of_nat_nonempty: "string_of_nat n \<noteq> []"
  by (simp add: string_of_nat.simps [of n])

lemma string_of_nat_small: "n < 10 \<Longrightarrow> string_of_nat n = [digit_char n]"
  by (simp add: string_of_nat.simps [of n])

lemma string_of_nat_large:
  "10 \<le> n \<Longrightarrow> string_of_nat n = string_of_nat (n div 10) @ [digit_char (n mod 10)]"
  by (simp add: string_of_nat.simps [of n])

lemma string_of_nat_inj: "string_of_nat n = string_of_nat m \<Longrightarrow> n = m"
proof (induction n arbitrary: m rule: less_induct)
  case (less n)
  show ?case
  proof (cases "n < 10")
    case True
    show ?thesis
    proof (cases "m < 10")
      case True
      with \<open>n < 10\<close> less.prems show ?thesis
        by (simp add: string_of_nat_small digit_char_inj)
    next
      case False
      with \<open>n < 10\<close> less.prems show ?thesis
        using string_of_nat_nonempty [of "m div 10"]
        by (simp add: string_of_nat_small string_of_nat_large)
    qed
  next
    case False
    show ?thesis
    proof (cases "m < 10")
      case True
      with \<open>\<not> n < 10\<close> less.prems show ?thesis
        using string_of_nat_nonempty [of "n div 10"]
        by (simp add: string_of_nat_small string_of_nat_large)
    next
      case False
      with \<open>\<not> n < 10\<close> less.prems
      have eq: "string_of_nat (n div 10) = string_of_nat (m div 10)"
        and d: "digit_char (n mod 10) = digit_char (m mod 10)"
        by (simp_all add: string_of_nat_large)
      have "n div 10 < n" using \<open>\<not> n < 10\<close> by simp
      from less.IH [OF this eq] have "n div 10 = m div 10" .
      moreover have "n mod 10 = m mod 10"
        using d by (intro digit_char_inj) simp_all
      ultimately show ?thesis
        by (metis div_mult_mod_eq)
    qed
  qed
qed

lemma issued_Suc: "issued (Suc n) = insert (''req_'' @ string_of_nat (Suc n)) (issued n)"
  by (auto simp: issued_def atMost_Suc)

lemma issued_fresh: "''req_'' @ string_of_nat (Suc n) \<notin> issued n"
  by (auto simp: issued_def dest: string_of_nat_inj)

lemma resolved_ids_sends: "resolved_ids (map SendToClient msgs) = []"
  by (induction msgs) simp_all

lemma resolved_ids_denies:
  "resolved_ids (map (\<lambda>(requestId, pending). Resolve requestId (Deny text)) ps) = map fst ps"
  by (induction ps) auto

lemma runQuery_frame:
  "pendingRequests (snd (runQuery s p opts q)) = pendingRequests s
   \<and> requestCounter (snd (runQuery s p opts q)) = requestCounter s
   \<and> resolved_ids (fst (runQuery s p opts q)) = []"
  by (simp add: runQuery_def split: sum.splits)

lemma forwardMessage_frame:
  "pendingRequests (snd (forwardMessage s msg)) = pendingRequests s
   \<and> requestCounter (snd (forwardMessage s msg)) = requestCounter s
   \<and> resolved_ids (fst (forwardMessage s msg)) = []"
  by (cases msg)
    (simp_all add: forwardMessage_def handleSystemMessage_def handleAssistantMessage_def
      resolved_ids_append resolved_ids_sends split: option.splits prod.splits)

lemma interrupt_frame: "snd (interrupt s) = s \<and> resolved_ids (fst (interrupt s)) = []"
  by (simp add: interrupt_def split: option.splits)

lemma step_frame:
  assumes "request_of c = None" "\<not> is_decision c" "c \<noteq> CallClose"
  shows "pendingRequests (snd (session_step s c)) = pendingRequests s
   \<and> requestCounter (snd (session_step s c)) = requestCounter s
   \<and> resolved_ids (fst (session_step s c)) = []"
  using assms
  by (cases c)
    (simp_all add: start_def sendPrompt_def resume_def interrupt_frame runQuery_finally_def
      runQuery_catch_def Let_def split_def runQuery_frame forwardMessage_frame)

lemma tracked_frame:
  "tracked s done \<Longrightarrow> pendingRequests s' = pendingRequests s
   \<Longrightarrow> requestCounter s' = requestCounter s \<Longrightarrow> tracked s' done"
  by (simp add: tracked_def)

lemma tracked_close:
  assumes "tracked s done"
  shows "tracked (snd (close s)) (done @ resolved_ids (fst (close s)))"
  using assms
  by (auto simp: tracked_def close_def resolved_ids_append resolved_ids_denies
      split: option.splits)

lemma resolve_ids:
  "request_of c = Some requestId \<Longrightarrow>
   (map_of (pendingRequests s) requestId = None \<longrightarrow> session_step s c = ([], s))
   \<and> (map_of (pendingRequests s) requestId \<noteq> None \<longrightarrow>
        resolved_ids (fst (session_step s c)) = [requestId]
        \<and> pendingRequests (snd (session_step s c)) = AList.delete requestId (pendingRequests s)
        \<and> requestCounter (snd (session_step s c)) = requestCounter s)"
  by (cases c) (auto simp: resolvePermission_def resolveQuestion_def Let_def)

lemma keys_delete: "fst ` set (AList.delete k al) = fst ` set al - {k}"
proof -
  have "set (map fst (AList.delete k al)) = set (removeAll k (map fst al))"
    by (simp only: AList.delete_keys)
  then show ?thesis by simp
qed

lemma tracked_resolve:
  assumes "tracked s done" "request_of c = Some requestId"
  shows "tracked (snd (session_step s c)) (done @ resolved_ids (fst (session_step s c)))"
proof (cases "map_of (pendingRequests s) requestId")
  case None
  with resolve_ids [OF assms(2), of s] assms(1) show ?thesis by simp
next
  case (Some p)
  then have mem: "requestId \<in> fst ` set (pendingRequests s)"
    by (metis map_of_eq_None_iff option.distinct(1))
  from Some resolve_ids [OF assms(2), of s]
  have r: "resolved_ids (fst (session_step s c)) = [requestId]"
    and p: "pendingRequests (snd (session_step s c)) = AList.delete requestId (pendingRequests s)"
    and k: "requestCounter (snd (session_step s c)) = requestCounter s"
    by simp_all
  from assms(1) have "distinct (map fst (AList.delete requestId (pendingRequests s)))"
    by (simp add: tracked_def distinct_delete)
  with assms(1) mem show ?thesis
    unfolding tracked_def r p k keys_delete
    by auto
qed

lemma increment_exact: "n < 2 ^ 53 \<Longrightarrow> increment n = Suc n"
  by (simp add: increment_def)

lemma tracked_decision:
  assumes "tracked s done" "requestCounter s < 2 ^ 53"
  shows "tracked (snd (handleCanUseTool s toolName input opts))
           (done @ resolved_ids (fst (handleCanUseTool s toolName input opts)))
         \<and> requestCounter (snd (handleCanUseTool s toolName input opts)) = Suc (requestCounter s)"
proof -
  define new where "new = ''req_'' @ string_of_nat (Suc (requestCounter s))"
  define s' where "s' = snd (handleCanUseTool s toolName input opts)"
  have fresh: "new \<notin> set done \<union> fst ` set (pendingRequests s)"
    using assms(1) issued_fresh [of "requestCounter s"] unfolding tracked_def new_def by blast
  have p: "pendingRequests s' = AList.update new \<lparr>toolInput = input\<rparr> (pendingRequests s)"
    and k: "requestCounter s' = Suc (requestCounter s)"
    and e: "resolved_ids (fst (handleCanUseTool s toolName input opts)) = []"
    using assms(2) by (simp_all add: s'_def new_def handleCanUseTool_def Let_def increment_exact)
  have d: "distinct (map fst (pendingRequests s'))"
    using assms(1) by (simp add: p tracked_def distinct_update)
  have keys: "fst ` set (pendingRequests s') = insert new (fst ` set (pendingRequests s))"
    unfolding p by (simp only: dom_update) simp
  have i: "issued (requestCounter s') = insert new (issued (requestCounter s))"
    by (simp add: k issued_Suc new_def)
  have "tracked s' (done @ [])"
    using assms(1) fresh d unfolding tracked_def keys i by auto
  then show ?thesis
    by (simp add: e k s'_def [symmetric])
qed

lemma tracked_step:
  assumes "tracked s done" "is_decision c \<Longrightarrow> requestCounter s < 2 ^ 53"
  shows "tracked (snd (session_step s c)) (done @ resolved_ids (fst (session_step s c)))
         \<and> requestCounter (snd (session_step s c)) =
             requestCounter s + (if is_decision c then 1 else 0)"
proof (cases "is_decision c")
  case True
  then obtain toolName input opts where c: "c = EngineCanUseTool toolName input opts"
    by (cases c) simp_all
  with assms tracked_decision [of s "done" toolName input opts] show ?thesis by simp
next
  case False
  note nd = this
  show ?thesis
  proof (cases "request_of c")
    case (Some requestId)
    from resolve_ids [OF Some, of s]
    have "requestCounter (snd (session_step s c)) = requestCounter s"
      by (cases "map_of (pendingRequests s) requestId") simp_all
    with tracked_resolve [OF assms(1) Some] nd show ?thesis by simp
  next
    case None
    show ?thesis
    proof (cases "c = CallClose")
      case True
      with tracked_close [OF assms(1)] nd show ?thesis
        by (simp add: close_def)
    next
      case False
      from step_frame [OF None nd False, of s] assms(1) nd show ?thesis
        by (simp add: tracked_frame)
    qed
  qed
qed

lemma session_run_append:
  "session_run s (cs @ ds) =
     (fst (session_run s cs) @ fst (session_run (snd (session_run s cs)) ds),
      snd (session_run (snd (session_run s cs)) ds))"
  by (induction cs arbitrary: s) (simp_all add: split_def Let_def)

lemma session_run_snoc:
  "session_run s (cs @ [c]) =
     (fst (session_run s cs) @ fst (session_step (snd (session_run s cs)) c),
      snd (session_step (snd (session_run s cs)) c))"
  by (simp add: session_run_append split_def Let_def)

lemma tracked_run:
  assumes "tracked s done" "requestCounter s + length (filter is_decision cs) \<le> 2 ^ 53"
  shows "tracked (snd (session_run s cs)) (done @ resolved_ids (fst (session_run s cs)))"
  using assms
proof (induction cs arbitrary: s "done")
  case Nil
  then show ?case by simp
next
  case (Cons c cs)
  have b: "is_decision c \<Longrightarrow> requestCounter s < 2 ^ 53"
    using Cons.prems(2) by simp
  from tracked_step [OF Cons.prems(1) b]
  have t: "tracked (snd (session_step s c)) (done @ resolved_ids (fst (session_step s c)))"
    and k: "requestCounter (snd (session_step s c)) =
             requestCounter s + (if is_decision c then 1 else 0)"
    by simp_all
  have "requestCounter (snd (session_step s c)) + length (filter is_decision cs) \<le> 2 ^ 53"
    using Cons.prems(2) k by (cases "is_decision c") simp_all
  from Cons.IH [OF t this] show ?case
    by (simp add: split_def Let_def resolved_ids_append)
qed

lemma tracked_new: "tracked (new_AgentSession sid sink cwd) []"
  by (simp add: tracked_def new_AgentSession_def)

lemma resolutions_append: "resolutions (a @ b) = resolutions a @ resolutions b"
  by (induction a rule: resolutions.induct) simp_all

lemma resolutions_denies:
  "resolutions (map (\<lambda>(requestId, pending). Resolve requestId (Deny text)) ps)
     = map (\<lambda>(requestId, pending). (requestId, Deny text)) ps"
  by (induction ps) auto

lemma handleCanUseTool_state:
  "snd (handleCanUseTool s toolName input opts) =
     s\<lparr>requestCounter := increment (requestCounter s),
       pendingRequests :=
         AList.update (''req_'' @ string_of_nat (increment (requestCounter s)))
           \<lparr>toolInput = input\<rparr> (pendingRequests s)\<rparr>"
  by (simp add: handleCanUseTool_def Let_def)

lemma resolveQuestion_after_update:
  "resolveQuestion (s\<lparr>requestCounter := c,
       pendingRequests := AList.update k \<lparr>toolInput = input\<rparr> ps\<rparr>) k answers
     = ([Resolve k (Allow (AList.update ''answers'' (answers_value answers) input))],
        s\<lparr>requestCounter := c, pendingRequests := AList.delete k ps\<rparr>)"
  by (simp add: resolveQuestion_def update_conv' delete_update_same)

lemma map_of_delete_same: "map_of (AList.delete k al) k = None"
  by (simp add: map_of_eq_None_iff delete_notin_dom)

subsection \<open>What a call leaves alone\<close>

lemma sessionId_runQuery: "sessionId (snd (runQuery s p opts q)) = sessionId s"
  by (simp add: runQuery_def split: sum.splits)

lemma claudeSessionId_runQuery: "claudeSessionId (snd (runQuery s p opts q)) = claudeSessionId s"
  by (simp add: runQuery_def split: sum.splits)

lemma forwardMessage_state:
  "snd (forwardMessage s msg) =
     (case msg of
        SDKSystemMessage subtype session_id tools model cwd \<Rightarrow>
          s\<lparr>claudeSessionId := Some session_id\<rparr>
      | _ \<Rightarrow> s)"
  by (cases msg)
    (simp_all add: forwardMessage_def handleSystemMessage_def handleAssistantMessage_def
      split_def Let_def split: option.splits)

lemma sessionId_forwardMessage: "sessionId (snd (forwardMessage s msg)) = sessionId s"
  by (cases msg) (simp_all add: forwardMessage_state)

lemma sessionId_step: "sessionId (snd (session_step s c)) = sessionId s"
  by (cases c)
    (simp_all add: start_def sendPrompt_def resume_def interrupt_def close_def
      resolvePermission_def resolveQuestion_def handleCanUseTool_def runQuery_finally_def
      runQuery_catch_def Let_def split_def sessionId_runQuery sessionId_forwardMessage
      split: option.splits)

lemma sessionId_run: "sessionId (snd (session_run s cs)) = sessionId s"
  by (induction cs arbitrary: s) (simp_all add: split_def Let_def sessionId_step)

lemma claudeSessionId_forwardMessage:
  "\<not> captures (EngineMessage msg) \<Longrightarrow>
   claudeSessionId (snd (forwardMessage s msg)) = claudeSessionId s"
  by (cases msg) (simp_all add: forwardMessage_state)

lemma claudeSessionId_step:
  "\<not> captures c \<Longrightarrow> claudeSessionId (snd (session_step s c)) = claudeSessionId s"
  by (cases c)
    (simp_all add: start_def sendPrompt_def resume_def interrupt_def close_def
      resolvePermission_def resolveQuestion_def handleCanUseTool_def runQuery_finally_def
      runQuery_catch_def Let_def split_def claudeSessionId_runQuery
      claudeSessionId_forwardMessage split: option.splits)

lemma on_session_new:
  "on_session (w\<lparr>objects := objects w @ [s], sessions := regs\<rparr>) (length (objects w)) method =
     (map (deliver (length (objects w)) (sendToClient s)) (fst (method s)),
      w\<lparr>objects := objects w @ [snd (method s)], sessions := regs\<rparr>)"
  by (simp add: on_session_def split_def Let_def)

section \<open>Properties of the JSON text\<close>

subsection \<open>Strings and numbers\<close>












subsection \<open>Reading what was written\<close>

















subsection \<open>The written text on the wire\<close>










subsection \<open>Messages are values\<close>




lemma index_key_name [simp]:
  "\<not> index_key ''sessionId''" "\<not> index_key ''type''" "\<not> index_key ''uuid''"
  "\<not> index_key ''text''" "\<not> index_key ''toolName''" "\<not> index_key ''toolInput''"
  "\<not> index_key ''toolUseId''" "\<not> index_key ''output''" "\<not> index_key ''isError''"
  "\<not> index_key ''requestId''" "\<not> index_key ''suggestions''" "\<not> index_key ''questions''"
  "\<not> index_key ''subtype''" "\<not> index_key ''claudeSessionId''" "\<not> index_key ''tools''"
  "\<not> index_key ''model''" "\<not> index_key ''cwd''" "\<not> index_key ''result''"
  "\<not> index_key ''totalCostUsd''" "\<not> index_key ''durationMs''" "\<not> index_key ''numTurns''"
  "\<not> index_key ''errors''" "\<not> index_key ''delta''" "\<not> index_key ''error''"
  "\<not> index_key ''status''" "\<not> index_key ''prompt''" "\<not> index_key ''systemPrompt''"
  "\<not> index_key ''permissionMode''" "\<not> index_key ''allowedTools''"
  "\<not> index_key ''settingSources''" "\<not> index_key ''behavior''"
  "\<not> index_key ''updatedInput''" "\<not> index_key ''message''" "\<not> index_key ''answers''"
  by (simp_all add: index_key_def is_digit_def)




section \<open>The claims\<close>

subsection \<open>C1: a request is resolved at most once\<close>

text \<open>
  C1. Take a session from its construction through any history of calls with at most \<open>2^53\<close>
  decision callbacks (up to there the request counter is exact). No request id is resolved
  twice in the whole history. If a \<open>resolvePermission\<close> or \<open>resolveQuestion\<close> call for an id
  resolved it, any later such call for the same id, whatever was called in between, resolves
  nothing and leaves the session as it is. In any session state at all, a second resolving call
  right after a first for the same id does nothing, and a resolving call for an id absent from
  the pending-request table does nothing.
\<close>

theorem resolve_at_most_once:
  assumes history: "length (filter is_decision (pre @ c1 # mid)) \<le> 2 ^ 53"
    and first: "request_of c1 = Some requestId"
    and later: "request_of c2 = Some requestId"
    and succeeds:
      "fst (session_step (snd (session_run (new_AgentSession sid sink cwd) pre)) c1) \<noteq> []"
  shows "distinct (resolved_ids (fst (session_run (new_AgentSession sid sink cwd)
            (pre @ c1 # mid @ [c2]))))
         \<and> session_step (snd (session_run (new_AgentSession sid sink cwd) (pre @ c1 # mid))) c2
             = ([], snd (session_run (new_AgentSession sid sink cwd) (pre @ c1 # mid)))
         \<and> session_step (snd (session_step s c1)) c2 = ([], snd (session_step s c1))
         \<and> (map_of (pendingRequests s) absent = None \<longrightarrow>
               resolvePermission s absent b updatedInput message = ([], s)
               \<and> resolveQuestion s absent answers = ([], s))"
proof -
  let ?s0 = "new_AgentSession sid sink cwd"
  let ?s1 = "snd (session_run ?s0 pre)"
  let ?s2 = "snd (session_run ?s0 (pre @ c1 # mid))"
  have nd: "\<not> is_decision c2" using later by (cases c2) simp_all
  have "requestCounter ?s0 + length (filter is_decision (pre @ c1 # mid @ [c2])) \<le> 2 ^ 53"
    using history nd by (cases "is_decision c1") (simp_all add: new_AgentSession_def)
  from tracked_run [OF tracked_new this]
  have d: "distinct (resolved_ids (fst (session_run ?s0 (pre @ c1 # mid @ [c2]))))"
    by (simp add: tracked_def)
  have r1: "resolved_ids (fst (session_step ?s1 c1)) = [requestId]"
    using resolve_ids [OF first, of ?s1] succeeds
    by (cases "map_of (pendingRequests ?s1) requestId") simp_all
  have run: "resolved_ids (fst (session_run ?s0 (pre @ c1 # mid @ [c2])))
      = resolved_ids (fst (session_run ?s0 (pre @ c1 # mid))) @ resolved_ids (fst (session_step ?s2 c2))"
    using session_run_snoc [of ?s0 "pre @ c1 # mid" c2] by (simp add: resolved_ids_append)
  have mem: "requestId \<in> set (resolved_ids (fst (session_run ?s0 (pre @ c1 # mid))))"
    using r1 session_run_append [of ?s0 pre "c1 # mid"]
    by (simp add: split_def Let_def resolved_ids_append)
  have "map_of (pendingRequests ?s2) requestId = None"
  proof (rule ccontr)
    assume "map_of (pendingRequests ?s2) requestId \<noteq> None"
    with resolve_ids [OF later, of ?s2]
    have "resolved_ids (fst (session_step ?s2 c2)) = [requestId]" by simp
    with d run mem show False by simp
  qed
  with resolve_ids [OF later, of ?s2]
  have noop: "session_step ?s2 c2 = ([], ?s2)" by simp
  have "map_of (pendingRequests (snd (session_step s c1))) requestId = None"
    using resolve_ids [OF first, of s]
    by (cases "map_of (pendingRequests s) requestId") (simp_all add: map_of_delete_same)
  with resolve_ids [OF later, of "snd (session_step s c1)"]
  have again: "session_step (snd (session_step s c1)) c2 = ([], snd (session_step s c1))"
    by simp
  show ?thesis
    using d noop again by (simp add: resolvePermission_def resolveQuestion_def)
qed

text \<open>A permission request is raised, denied by the user, the session is closed, and a late
  answer to the same request arrives.\<close>

theorem resolve_at_most_once_witness:
  "session_step
     (snd (session_run (new_AgentSession ''s1'' (5::nat) ''/tmp'')
       [EngineCanUseTool ''Bash'' [(''command'', JStr ''ls'')]
        \<lparr>toolUseID = ''tu1'', suggestions = None\<rparr>,
        CallResolvePermission ''req_1'' BehaviorDeny None None, CallClose]))
     (CallResolveQuestion ''req_1'' [])
   = ([], snd (session_run (new_AgentSession ''s1'' (5::nat) ''/tmp'')
       [EngineCanUseTool ''Bash'' [(''command'', JStr ''ls'')]
        \<lparr>toolUseID = ''tu1'', suggestions = None\<rparr>,
        CallResolvePermission ''req_1'' BehaviorDeny None None, CallClose]))"
proof -
  have succeeds:
    "fst (session_step
       (snd (session_run (new_AgentSession ''s1'' (5::nat) ''/tmp'')
          [EngineCanUseTool ''Bash'' [(''command'', JStr ''ls'')]
        \<lparr>toolUseID = ''tu1'', suggestions = None\<rparr>]))
       (CallResolvePermission ''req_1'' BehaviorDeny None None)) \<noteq> []"
    by (simp add: handleCanUseTool_def resolvePermission_def new_AgentSession_def increment_def
        string_of_nat.simps digit_char_def Let_def)
  have history:
    "length (filter is_decision
       ([EngineCanUseTool ''Bash'' [(''command'', JStr ''ls'')]
        \<lparr>toolUseID = ''tu1'', suggestions = None\<rparr>]
        @ CallResolvePermission ''req_1'' BehaviorDeny None None # [CallClose])) \<le> 2 ^ 53"
    by simp
  have first: "request_of (CallResolvePermission ''req_1'' BehaviorDeny None None) = Some ''req_1''"
    by simp
  have later: "request_of (CallResolveQuestion ''req_1'' []) = Some ''req_1''"
    by simp
  from resolve_at_most_once [OF history first later succeeds, THEN conjunct2, THEN conjunct1]
  show ?thesis by simp
qed

subsection \<open>C2: an engine failure ends in idle\<close>

text \<open>
  C2. When the iteration over the engine's messages throws, the session emits an \<open>error\<close>
  event with the failure's text and then \<open>session_status idle\<close>, and forgets the query. The same
  two events end the call when \<open>query\<close> itself throws at the start of an invocation, from
  \<open>start\<close>, from \<open>resume\<close>, and from \<open>sendPrompt\<close> once a conversation id is held. After any
  history of calls the failure appends exactly these two events, so the last status the
  session reports is \<open>idle\<close>. In the server the failure of a session object changes that object
  only: the registry still names the session.
\<close>

theorem engine_failure_error_then_idle:
  "session_step s (EngineThrow err)
     = ([SendToClient (ErrorEvent (sessionId s) (error_text err)),
         SendToClient (SessionStatus (sessionId s) Idle)],
        s\<lparr>activeQuery := None\<rparr>)
   \<and> (c = CallStart config (Inl err) \<or> c = CallResume claudeId prompt cwd (Inl err)
        \<or> c = CallSendPrompt prompt (Inl err) \<and> \<not> falsy (claudeSessionId s) \<longrightarrow>
        drop (length (fst (session_step s c)) - 2) (fst (session_step s c))
          = [SendToClient (ErrorEvent (sessionId s) (error_text err)),
             SendToClient (SessionStatus (sessionId s) Idle)]
        \<and> activeQuery (snd (session_step s c)) = None)
   \<and> fst (session_run s (cs @ [EngineThrow err]))
       = fst (session_run s cs)
           @ [SendToClient (ErrorEvent (sessionId s) (error_text err)),
              SendToClient (SessionStatus (sessionId s) Idle)]
   \<and> activeQuery (snd (session_run s (cs @ [EngineThrow err]))) = None
   \<and> (a < length (objects w) \<longrightarrow>
        server_step process_cwd w (Invoke a (EngineThrow err))
          = ([TransportSend (sendToClient (objects w ! a))
                (ErrorEvent (sessionId (objects w ! a)) (error_text err)),
              TransportSend (sendToClient (objects w ! a))
                (SessionStatus (sessionId (objects w ! a)) Idle)],
             w\<lparr>objects := (objects w)[a := (objects w ! a)\<lparr>activeQuery := None\<rparr>]\<rparr>)
        \<and> sessions (snd (server_step process_cwd w (Invoke a (EngineThrow err)))) = sessions w)"
proof -
  have step: "session_step s (EngineThrow err)
     = ([SendToClient (ErrorEvent (sessionId s) (error_text err)),
         SendToClient (SessionStatus (sessionId s) Idle)],
        s\<lparr>activeQuery := None\<rparr>)" for s :: "'a AgentSession"
    by (simp add: runQuery_catch_def)
  have entry: "c = CallStart config (Inl err) \<or> c = CallResume claudeId prompt cwd (Inl err)
        \<or> c = CallSendPrompt prompt (Inl err) \<and> \<not> falsy (claudeSessionId s) \<longrightarrow>
        drop (length (fst (session_step s c)) - 2) (fst (session_step s c))
          = [SendToClient (ErrorEvent (sessionId s) (error_text err)),
             SendToClient (SessionStatus (sessionId s) Idle)]
        \<and> activeQuery (snd (session_step s c)) = None"
    by (auto simp: start_def resume_def sendPrompt_def runQuery_def Let_def)
  have run: "fst (session_run s (cs @ [EngineThrow err]))
       = fst (session_run s cs)
           @ [SendToClient (ErrorEvent (sessionId s) (error_text err)),
              SendToClient (SessionStatus (sessionId s) Idle)]
     \<and> activeQuery (snd (session_run s (cs @ [EngineThrow err]))) = None"
    by (simp add: session_run_snoc runQuery_catch_def sessionId_run)
  have server: "a < length (objects w) \<longrightarrow>
        server_step process_cwd w (Invoke a (EngineThrow err))
          = ([TransportSend (sendToClient (objects w ! a))
                (ErrorEvent (sessionId (objects w ! a)) (error_text err)),
              TransportSend (sendToClient (objects w ! a))
                (SessionStatus (sessionId (objects w ! a)) Idle)],
             w\<lparr>objects := (objects w)[a := (objects w ! a)\<lparr>activeQuery := None\<rparr>]\<rparr>)
        \<and> sessions (snd (server_step process_cwd w (Invoke a (EngineThrow err)))) = sessions w"
    by (simp add: on_session_def runQuery_catch_def deliver_def Let_def)
  from step [of s] entry run server show ?thesis
    by (intro conjI) simp_all
qed

theorem engine_failure_error_then_idle_witness:
  "server_step ''/srv''
     \<lparr>sessions = [(''s1'', 0)], transports = [5, 6],
      objects = [\<lparr>sessionId = ''s1'', sendToClient = 5, activeQuery = Some 4,
                  claudeSessionId = None,
                  pendingRequests = [(''req_1'', \<lparr>toolInput = []\<rparr>)],
                  requestCounter = 1, lastCwd = ''/tmp''\<rparr>]\<rparr>
     (Invoke 0 (EngineThrow (ErrorObject ''boom'')))
   = ([TransportSend 5 (ErrorEvent ''s1'' ''boom''), TransportSend 5 (SessionStatus ''s1'' Idle)],
      \<lparr>sessions = [(''s1'', 0)], transports = [5, 6],
       objects = [\<lparr>sessionId = ''s1'', sendToClient = 5, activeQuery = None,
                  claudeSessionId = None,
                  pendingRequests = [(''req_1'', \<lparr>toolInput = []\<rparr>)],
                  requestCounter = 1, lastCwd = ''/tmp''\<rparr>]\<rparr>)"
  using engine_failure_error_then_idle
    [where a = 0 and err = "ErrorObject ''boom''" and process_cwd = "''/srv''"
       and w = "\<lparr>sessions = [(''s1'', 0)], transports = [5, 6],
          objects = [\<lparr>sessionId = ''s1'', sendToClient = 5, activeQuery = Some 4,
                      claudeSessionId = None,
                      pendingRequests = [(''req_1'', \<lparr>toolInput = []\<rparr>)],
                      requestCounter = 1, lastCwd = ''/tmp''\<rparr>]\<rparr>",
     THEN conjunct2, THEN conjunct2, THEN conjunct2, THEN conjunct2]
  by simp

subsection \<open>C3: close denies what is pending\<close>

text \<open>
  C3. \<open>close()\<close> resolves every pending request, in table order, with the decision
  \<open>deny\<close> and the message "Session closed": as many resolutions as the table has entries, all
  of them before the \<open>session_status closed\<close> event, which is the last effect. Afterwards the
  table is empty and no query is active. A second \<open>close()\<close> resolves nothing: it emits
  \<open>closed\<close> again and leaves the session as the first call left it.
\<close>

theorem close_denies_pending:
  "resolutions (butlast (fst (close s)))
     = map (\<lambda>(requestId, pending). (requestId, Deny ''Session closed'')) (pendingRequests s)
   \<and> length (resolutions (fst (close s))) = length (pendingRequests s)
   \<and> fst (close s) = butlast (fst (close s)) @ [SendToClient (SessionStatus (sessionId s) Closed)]
   \<and> pendingRequests (snd (close s)) = []
   \<and> activeQuery (snd (close s)) = None
   \<and> close (snd (close s))
       = ([SendToClient (SessionStatus (sessionId s) Closed)], snd (close s))
   \<and> resolutions (fst (close (snd (close s)))) = []"
  by (simp add: close_def butlast_append resolutions_append resolutions_denies
      split: option.splits)

theorem close_denies_pending_witness:
  "resolutions (butlast (fst (close
     \<lparr>sessionId = ''s1'', sendToClient = 5::nat, activeQuery = Some 4, claudeSessionId = None,
      pendingRequests = [(''req_1'', \<lparr>toolInput = [(''command'', JStr ''ls'')]\<rparr>),
                         (''req_2'', \<lparr>toolInput = []\<rparr>)],
      requestCounter = 2, lastCwd = ''/tmp''\<rparr>)))
   = [(''req_1'', Deny ''Session closed''), (''req_2'', Deny ''Session closed'')]
   \<and> pendingRequests (snd (close
     \<lparr>sessionId = ''s1'', sendToClient = 5::nat, activeQuery = Some 4, claudeSessionId = None,
      pendingRequests = [(''req_1'', \<lparr>toolInput = [(''command'', JStr ''ls'')]\<rparr>),
                         (''req_2'', \<lparr>toolInput = []\<rparr>)],
      requestCounter = 2, lastCwd = ''/tmp''\<rparr>)) = []"
  using close_denies_pending
    [of "\<lparr>sessionId = ''s1'', sendToClient = 5::nat, activeQuery = Some 4,
          claudeSessionId = None,
          pendingRequests = [(''req_1'', \<lparr>toolInput = [(''command'', JStr ''ls'')]\<rparr>),
                             (''req_2'', \<lparr>toolInput = []\<rparr>)],
          requestCounter = 2, lastCwd = ''/tmp''\<rparr>"]
  by simp

subsection \<open>C4: one malformed line, then valid lines\<close>

text \<open>
  C4. Take any stream of newline-terminated segments, cut into chunks anywhere, whose
  non-blank segments are one segment that does not parse followed by segments that do.
  Fed to a transport with an empty buffer, it makes the transport emit exactly one error, for
  the malformed segment, and then one message per valid segment, in order; the blank segments
  emit nothing. The messages number as many as the valid segments, the errors one, and the
  transport is left as it was: buffer empty, its socket neither ended nor destroyed by the
  framer. The server's listener for the error only logs it: the server, and with it the set of
  open transports, is unchanged.
\<close>

theorem framer_malformed_then_valid:
  assumes stream: "concat chunks = wire segs"
    and segs: "\<forall>l \<in> set segs. nl \<notin> set l"
    and nonblank: "filter (\<lambda>l. trim l \<noteq> []) segs = bad # good"
    and bad: "parse (trim bad) = None"
    and good: "map (\<lambda>l. parse (trim l)) good = map Some msgs"
    and fresh: "buffer t = []"
  shows "feed parse t chunks =
           (Error (''Invalid JSON: '' @ take 200 (trim bad)) # map Message msgs, t)
         \<and> length (filter is_Message (fst (feed parse t chunks))) = length good
         \<and> length (filter (\<lambda>e. \<not> is_Message e) (fst (feed parse t chunks))) = 1
         \<and> socket (snd (feed parse t chunks)) = socket t
         \<and> server_step process_cwd w
               (TransportError transport (''Invalid JSON: '' @ take 200 (trim bad)))
             = ([ConsoleError (''[transport] error: '' @ ''Invalid JSON: '' @ take 200 (trim bad))],
                w)"
proof -
  have "set (bad # good) = {l \<in> set segs. trim l \<noteq> []}"
    using nonblank [symmetric] by simp
  then have nb: "\<forall>l \<in> set (bad # good). trim l \<noteq> []"
    by blast
  then have b: "segment_events parse bad = [Error (''Invalid JSON: '' @ take 200 (trim bad))]"
    using bad by (simp add: segment_events_def)
  have g: "concat (map (segment_events parse) good) = map Message msgs"
    using good nb by (simp add: segment_events_valid)
  have "drain parse (wire segs @ []) = (concat (map (segment_events parse) segs), [])"
    using segs by (intro drain_wire) simp_all
  then have "drain parse (buffer t @ concat chunks) =
      (Error (''Invalid JSON: '' @ take 200 (trim bad)) # map Message msgs, [])"
    using segment_events_nonblank [of parse segs] nonblank b g fresh stream by simp
  then have f: "feed parse t chunks =
      (Error (''Invalid JSON: '' @ take 200 (trim bad)) # map Message msgs, t)"
    using fresh by (simp add: feed_drain)
  have len: "length msgs = length good"
    using good by (metis length_map)
  show ?thesis
    using f len by (simp add: filter_map comp_def)
qed

text \<open>
  The stream \<open>\<newline> {nope\<newline>true \<newline>\<newline>false\<newline>\<close> in three chunks cut inside a line, with the
  JSON reading of the two boolean literals for \<open>parse\<close>.
\<close>

theorem framer_malformed_then_valid_witness:
  "feed (\<lambda>s. if s = ''true'' then Some True else if s = ''false'' then Some False else None)
      \<lparr>buffer = [], socket = \<lparr>destroyed = False, ended = False, written = []\<rparr>\<rparr>
      [nl # '' {no'', ''pe'' @ nl # ''true '' @ [nl], nl # ''false'' @ [nl]]
   = ([Error ''Invalid JSON: {nope'', Message True, Message False],
      \<lparr>buffer = [], socket = \<lparr>destroyed = False, ended = False, written = []\<rparr>\<rparr>)"
  using framer_malformed_then_valid
    [of "[nl # '' {no'', ''pe'' @ nl # ''true '' @ [nl], nl # ''false'' @ [nl]]"
        "[[], '' {nope'', ''true '', [], ''false'']"
        "'' {nope''" "[''true '', ''false'']"
        "\<lambda>s. if s = ''true'' then Some True else if s = ''false'' then Some False else None"
        "[True, False]"
        "\<lparr>buffer = [], socket = \<lparr>destroyed = False, ended = False, written = []\<rparr>\<rparr>"
        "''/srv''" "\<lparr>sessions = [], transports = [1], objects = []\<rparr>" 1]
  by (simp add: wire_def trim_def is_ws_def nl_def)

subsection \<open>C5: a second start for a registered id\<close>

text \<open>
  C5. A \<open>start_session\<close> for an id the registry holds makes the server send one error event
  with that session id on the transport the message came from, and nothing else: the server is
  unchanged, registry and session objects with their pending requests alike. Whatever happens
  later happens as if the message had never arrived, the error aside.
\<close>

theorem start_session_duplicate_rejected:
  assumes "map_of (sessions w) sid = Some a"
  shows "handleMessage process_cwd q w transport (StartSession sid config)
           = ([TransportSend transport
                 (ErrorEvent sid (''Session '' @ quoted sid @ '' already exists''))], w)
         \<and> server_run process_cwd w (Receive transport (StartSession sid config) q # later)
           = (TransportSend transport
                (ErrorEvent sid (''Session '' @ quoted sid @ '' already exists''))
                # fst (server_run process_cwd w later),
              snd (server_run process_cwd w later))"
  using assms by (simp add: startSession_def split_def Let_def)

theorem start_session_duplicate_rejected_witness:
  "handleMessage ''/srv'' (Inr 9)
     \<lparr>sessions = [(''s1'', 0)], transports = [5, 6],
      objects = [\<lparr>sessionId = ''s1'', sendToClient = 5, activeQuery = Some 4,
                  claudeSessionId = None,
                  pendingRequests = [(''req_1'', \<lparr>toolInput = []\<rparr>)],
                  requestCounter = 1, lastCwd = ''/tmp''\<rparr>]\<rparr> 6
     (StartSession ''s1''
        \<lparr>start_cwd = ''/work'', start_prompt = ''hi'', start_systemPrompt = None,
         start_model = None, start_permissionMode = None, start_allowedTools = None,
         start_settingSources = None\<rparr>)
   = ([TransportSend 6 (ErrorEvent ''s1'' (''Session '' @ quoted ''s1'' @ '' already exists''))],
      \<lparr>sessions = [(''s1'', 0)], transports = [5, 6],
      objects = [\<lparr>sessionId = ''s1'', sendToClient = 5, activeQuery = Some 4,
                  claudeSessionId = None,
                  pendingRequests = [(''req_1'', \<lparr>toolInput = []\<rparr>)],
                  requestCounter = 1, lastCwd = ''/tmp''\<rparr>]\<rparr>)"
  using start_session_duplicate_rejected
    [of "\<lparr>sessions = [(''s1'', 0)], transports = [5, 6],
          objects = [\<lparr>sessionId = ''s1'', sendToClient = 5, activeQuery = Some 4,
                      claudeSessionId = None,
                      pendingRequests = [(''req_1'', \<lparr>toolInput = []\<rparr>)],
                      requestCounter = 1, lastCwd = ''/tmp''\<rparr>]\<rparr>" "''s1''" 0 "''/srv''" "Inr 9" 6]
  by simp

subsection \<open>C6: messages for an unknown session\<close>

text \<open>
  C6. For a session id the registry does not hold, \<open>send_prompt\<close>, \<open>interrupt\<close>,
  \<open>permission_response\<close> and \<open>question_response\<close> write one line to the console and do
  nothing else: nothing is sent on any transport and the server is unchanged. A
  \<open>close_session\<close> for such an id sends one error event with that session id on the
  transport the message came from.
\<close>

theorem unknown_session_dropped_or_acknowledged:
  assumes "map_of (sessions w) sid = None"
  shows "(msg = SendPrompt sid prompt \<or> msg = Interrupt sid
            \<or> msg = PermissionResponse sid requestId b updatedInput message
            \<or> msg = QuestionResponse sid requestId answers \<longrightarrow>
          handleMessage process_cwd q w transport msg
            = ([ConsoleError (''[server] session '' @ quoted sid @ '' not found'')], w))
         \<and> handleMessage process_cwd q w transport (CloseSession sid)
            = ([TransportSend transport
                  (ErrorEvent sid (''Session '' @ quoted sid @ '' not found''))], w)"
  using assms by (auto simp: with_session_def getSession_def closeSession_def)

theorem unknown_session_dropped_or_acknowledged_witness:
  "handleMessage ''/srv'' (Inr 9)
     \<lparr>sessions = [(''s1'', 0)], transports = [5, 6],
      objects = [\<lparr>sessionId = ''s1'', sendToClient = 5, activeQuery = Some 4,
                  claudeSessionId = None,
                  pendingRequests = [(''req_1'', \<lparr>toolInput = []\<rparr>)],
                  requestCounter = 1, lastCwd = ''/tmp''\<rparr>]\<rparr> 6
     (SendPrompt ''s2'' ''hi'')
   = ([ConsoleError (''[server] session '' @ quoted ''s2'' @ '' not found'')],
      \<lparr>sessions = [(''s1'', 0)], transports = [5, 6],
      objects = [\<lparr>sessionId = ''s1'', sendToClient = 5, activeQuery = Some 4,
                  claudeSessionId = None,
                  pendingRequests = [(''req_1'', \<lparr>toolInput = []\<rparr>)],
                  requestCounter = 1, lastCwd = ''/tmp''\<rparr>]\<rparr>)
   \<and> handleMessage ''/srv'' (Inr 9)
     \<lparr>sessions = [(''s1'', 0)], transports = [5, 6],
      objects = [\<lparr>sessionId = ''s1'', sendToClient = 5, activeQuery = Some 4,
                  claudeSessionId = None,
                  pendingRequests = [(''req_1'', \<lparr>toolInput = []\<rparr>)],
                  requestCounter = 1, lastCwd = ''/tmp''\<rparr>]\<rparr> 6
     (CloseSession ''s2'')
   = ([TransportSend 6 (ErrorEvent ''s2'' (''Session '' @ quoted ''s2'' @ '' not found''))],
      \<lparr>sessions = [(''s1'', 0)], transports = [5, 6],
      objects = [\<lparr>sessionId = ''s1'', sendToClient = 5, activeQuery = Some 4,
                  claudeSessionId = None,
                  pendingRequests = [(''req_1'', \<lparr>toolInput = []\<rparr>)],
                  requestCounter = 1, lastCwd = ''/tmp''\<rparr>]\<rparr>)"
  using unknown_session_dropped_or_acknowledged
    [where sid = "''s2''" and msg = "SendPrompt ''s2'' ''hi''" and prompt = "''hi''"
       and requestId = "[]" and b = BehaviorDeny and updatedInput = None and message = None
       and answers = "[]" and process_cwd = "''/srv''" and q = "Inr 9" and transport = 6
       and w = "\<lparr>sessions = [(''s1'', 0)], transports = [5, 6],
          objects = [\<lparr>sessionId = ''s1'', sendToClient = 5, activeQuery = Some 4,
                      claudeSessionId = None,
                      pendingRequests = [(''req_1'', \<lparr>toolInput = []\<rparr>)],
                      requestCounter = 1, lastCwd = ''/tmp''\<rparr>]\<rparr>"]
  by simp

subsection \<open>C7: a follow-up prompt resumes the captured conversation\<close>

text \<open>
  C7 as stated fails for one captured identifier, the empty string: \<open>sendPrompt\<close> tests
  \<open>!this.claudeSessionId\<close>, and the empty string is falsy. A system message with an empty
  \<open>session_id\<close> is captured, and the prompt that follows is answered with the error and no
  query.
\<close>

theorem sendPrompt_empty_id_counterexample:
  "claudeSessionId (snd (forwardMessage (new_AgentSession ''s1'' (0::nat) ''/tmp'')
      (SDKSystemMessage ''init'' [] None None None))) = Some []
   \<and> sendPrompt (snd (forwardMessage (new_AgentSession ''s1'' (0::nat) ''/tmp'')
        (SDKSystemMessage ''init'' [] None None None))) ''hi'' (Inr 7)
      = ([SendToClient (ErrorEvent ''s1'' ''No active session to send prompt to'')],
         snd (forwardMessage (new_AgentSession ''s1'' (0::nat) ''/tmp'')
           (SDKSystemMessage ''init'' [] None None None)))
   \<and> query_calls (fst (sendPrompt (snd (forwardMessage (new_AgentSession ''s1'' (0::nat) ''/tmp'')
        (SDKSystemMessage ''init'' [] None None None))) ''hi'' (Inr 7))) = []"
  by (simp add: sendPrompt_def forwardMessage_def handleSystemMessage_def new_AgentSession_def)

text \<open>
  C7, amended. While the session holds no conversation id, or an empty one, \<open>sendPrompt\<close>
  emits one \<open>error\<close> event and does nothing else: the session is unchanged and no query is
  made. When it holds a non-empty id, \<open>sendPrompt\<close> first reports \<open>processing\<close> and makes
  exactly one \<open>query\<close> call, with the prompt, resuming that id in the last working directory.
  The id held is the one of the last system message: a new session holds none, a system
  message stores its \<open>session_id\<close>, and no other call changes it.
\<close>

theorem sendPrompt_resumes_captured:
  "(falsy (claudeSessionId s) \<longrightarrow>
      sendPrompt s prompt q
        = ([SendToClient (ErrorEvent (sessionId s) ''No active session to send prompt to'')], s))
   \<and> (claudeSessionId s = Some claudeId \<and> claudeId \<noteq> [] \<longrightarrow>
        query_calls (fst (sendPrompt s prompt q))
          = [(prompt, \<lparr>opt_resume = Some claudeId, opt_cwd = lastCwd s, opt_model = None,
                       opt_permissionMode = None, opt_allowedTools = None,
                       opt_settingSources = None, opt_systemPrompt = None,
                       opt_includePartialMessages = True\<rparr>)]
        \<and> hd (fst (sendPrompt s prompt q)) = SendToClient (SessionStatus (sessionId s) Processing))
   \<and> claudeSessionId (snd (forwardMessage s (SDKSystemMessage subtype claudeId tools model cwd)))
       = Some claudeId
   \<and> claudeSessionId (new_AgentSession sid sink process_cwd) = None
   \<and> (\<not> captures c \<longrightarrow> claudeSessionId (snd (session_step s c)) = claudeSessionId s)"
  by (auto simp: sendPrompt_def runQuery_def forwardMessage_def handleSystemMessage_def
      new_AgentSession_def claudeSessionId_step split: sum.splits)

theorem sendPrompt_resumes_captured_witness:
  "query_calls (fst (sendPrompt
      (snd (forwardMessage (new_AgentSession ''s1'' (5::nat) ''/tmp'')
         (SDKSystemMessage ''init'' ''c-42'' None None None))) ''next'' (Inr 7)))
   = [(''next'', \<lparr>opt_resume = Some ''c-42'', opt_cwd = ''/tmp'', opt_model = None,
                  opt_permissionMode = None, opt_allowedTools = None,
                  opt_settingSources = None, opt_systemPrompt = None,
                  opt_includePartialMessages = True\<rparr>)]"
  using sendPrompt_resumes_captured
    [of "snd (forwardMessage (new_AgentSession ''s1'' (5::nat) ''/tmp'')
         (SDKSystemMessage ''init'' ''c-42'' None None None))" "''next''" "Inr 7" "''c-42''"]
  by (simp add: forwardMessage_def handleSystemMessage_def new_AgentSession_def)

subsection \<open>C8: answering a question\<close>

text \<open>
  C8. For a request id in the table, \<open>resolveQuestion\<close> resolves that request with the
  decision \<open>allow\<close>, never \<open>deny\<close>, and removes it from the table. The payload is the stored
  payload of the request with its property \<open>answers\<close> set to the answers: read as a map, the
  original payload updated at \<open>answers\<close>. The stored payload is the input the engine passed to
  the decision callback: answering the request a callback has just raised allows that input
  with the answers added. For an id not in the table \<open>resolveQuestion\<close> does nothing.
\<close>

theorem resolveQuestion_allows_merged:
  "(map_of (pendingRequests s) requestId = Some pending \<longrightarrow>
      resolveQuestion s requestId answers
        = ([Resolve requestId
              (Allow (AList.update ''answers'' (answers_value answers) (toolInput pending)))],
           s\<lparr>pendingRequests := AList.delete requestId (pendingRequests s)\<rparr>)
      \<and> map_of (AList.update ''answers'' (answers_value answers) (toolInput pending))
          = (map_of (toolInput pending))(''answers'' \<mapsto> answers_value answers)
      \<and> map_of (pendingRequests (snd (resolveQuestion s requestId answers))) requestId = None)
   \<and> (map_of (pendingRequests s) requestId = None \<longrightarrow>
        resolveQuestion s requestId answers = ([], s))
   \<and> map_of (pendingRequests (snd (handleCanUseTool s toolName input opts)))
        (''req_'' @ string_of_nat (increment (requestCounter s))) = Some \<lparr>toolInput = input\<rparr>
   \<and> resolveQuestion (snd (handleCanUseTool s toolName input opts))
        (''req_'' @ string_of_nat (increment (requestCounter s))) answers
       = ([Resolve (''req_'' @ string_of_nat (increment (requestCounter s)))
             (Allow (AList.update ''answers'' (answers_value answers) input))],
          s\<lparr>requestCounter := increment (requestCounter s),
            pendingRequests := AList.delete (''req_'' @ string_of_nat (increment (requestCounter s)))
              (pendingRequests s)\<rparr>)"
proof -
  have present: "map_of (pendingRequests s) requestId = Some pending \<longrightarrow>
      resolveQuestion s requestId answers
        = ([Resolve requestId
              (Allow (AList.update ''answers'' (answers_value answers) (toolInput pending)))],
           s\<lparr>pendingRequests := AList.delete requestId (pendingRequests s)\<rparr>)
      \<and> map_of (AList.update ''answers'' (answers_value answers) (toolInput pending))
          = (map_of (toolInput pending))(''answers'' \<mapsto> answers_value answers)
      \<and> map_of (pendingRequests (snd (resolveQuestion s requestId answers))) requestId = None"
    by (simp add: resolveQuestion_def update_conv' map_of_delete_same)
  have absent: "map_of (pendingRequests s) requestId = None \<longrightarrow>
      resolveQuestion s requestId answers = ([], s)"
    by (simp add: resolveQuestion_def)
  have stored: "map_of (pendingRequests (snd (handleCanUseTool s toolName input opts)))
      (''req_'' @ string_of_nat (increment (requestCounter s))) = Some \<lparr>toolInput = input\<rparr>"
    unfolding handleCanUseTool_state by (simp add: update_conv')
  have e2e: "resolveQuestion (snd (handleCanUseTool s toolName input opts))
        (''req_'' @ string_of_nat (increment (requestCounter s))) answers
       = ([Resolve (''req_'' @ string_of_nat (increment (requestCounter s)))
             (Allow (AList.update ''answers'' (answers_value answers) input))],
          s\<lparr>requestCounter := increment (requestCounter s),
            pendingRequests := AList.delete (''req_'' @ string_of_nat (increment (requestCounter s)))
              (pendingRequests s)\<rparr>)"
    by (simp only: handleCanUseTool_state resolveQuestion_after_update)
  from present absent stored e2e show ?thesis
    by (intro conjI)
qed

theorem resolveQuestion_allows_merged_witness:
  "resolveQuestion
     \<lparr>sessionId = ''s1'', sendToClient = 5::nat, activeQuery = Some 4, claudeSessionId = None,
      pendingRequests = [(''req_1'', \<lparr>toolInput = [(''questions'', JArr [])]\<rparr>)],
      requestCounter = 1, lastCwd = ''/tmp''\<rparr>
     ''req_1'' [(''Colour'', ''Red'')]
   = ([Resolve ''req_1''
         (Allow [(''questions'', JArr []), (''answers'', JObj [(''Colour'', JStr ''Red'')])])],
      \<lparr>sessionId = ''s1'', sendToClient = 5::nat, activeQuery = Some 4, claudeSessionId = None,
       pendingRequests = [], requestCounter = 1, lastCwd = ''/tmp''\<rparr>)"
  using resolveQuestion_allows_merged
    [of "\<lparr>sessionId = ''s1'', sendToClient = 5::nat, activeQuery = Some 4,
          claudeSessionId = None,
          pendingRequests = [(''req_1'', \<lparr>toolInput = [(''questions'', JArr [])]\<rparr>)],
          requestCounter = 1, lastCwd = ''/tmp''\<rparr>"
        "''req_1''" "\<lparr>toolInput = [(''questions'', JArr [])]\<rparr>" "[(''Colour'', ''Red'')]"]
  by (simp add: answers_value_def)

subsection \<open>C9: round trip\<close>




subsection \<open>C10: resuming under a registered id\<close>

text \<open>
  C10. A \<open>resume_session\<close> for an id the registry holds is not rejected. The server constructs
  a new session object, makes the registry name it under that id, and calls its \<open>resume\<close>;
  what it sends is what that call emits, for a query that starts a \<open>processing\<close> status and the
  \<open>query\<close> call. The object registered before is not touched: it keeps its pending requests
  and its active query, none of its requests is resolved, and no \<open>closed\<close> status is sent.
\<close>

theorem resume_session_overwrites:
  assumes "map_of (sessions w) sid = Some a" and "a < length (objects w)"
  shows "map_of (sessions (snd (handleMessage process_cwd q w transport
            (ResumeSession sid claudeId prompt cwd)))) sid = Some (length (objects w))
     \<and> length (objects w) \<noteq> a
     \<and> objects (snd (handleMessage process_cwd q w transport
            (ResumeSession sid claudeId prompt cwd))) ! a = objects w ! a
     \<and> objects (snd (handleMessage process_cwd q w transport
            (ResumeSession sid claudeId prompt cwd))) ! length (objects w)
         = snd (resume (new_AgentSession sid transport process_cwd) claudeId prompt cwd q)
     \<and> fst (handleMessage process_cwd q w transport (ResumeSession sid claudeId prompt cwd))
         = map (deliver (length (objects w)) transport)
             (fst (resume (new_AgentSession sid transport process_cwd) claudeId prompt cwd q))
     \<and> fst (handleMessage process_cwd (Inr handle) w transport (ResumeSession sid claudeId prompt cwd))
         = [TransportSend transport (SessionStatus sid Processing),
            SessionEffect (length (objects w))
              (CallQuery prompt
                 \<lparr>opt_resume = Some claudeId, opt_cwd = cwd, opt_model = None,
                  opt_permissionMode = None, opt_allowedTools = None,
                  opt_settingSources = None, opt_systemPrompt = None,
                  opt_includePartialMessages = True\<rparr>)]
     \<and> SessionEffect b (Resolve requestId result)
         \<notin> set (fst (handleMessage process_cwd q w transport (ResumeSession sid claudeId prompt cwd)))
     \<and> TransportSend t (SessionStatus sid' Closed)
         \<notin> set (fst (handleMessage process_cwd q w transport (ResumeSession sid claudeId prompt cwd)))"
  using assms
  by (auto simp: resumeSession_def Let_def on_session_new update_conv' nth_append
      new_AgentSession_def resume_def runQuery_def deliver_def split: sum.splits)

theorem resume_session_overwrites_witness:
  "map_of (sessions (snd (handleMessage ''/srv'' (Inr 9)
      \<lparr>sessions = [(''s1'', 0)], transports = [5, 6],
      objects = [\<lparr>sessionId = ''s1'', sendToClient = 5, activeQuery = Some 4,
                  claudeSessionId = None,
                  pendingRequests = [(''req_1'', \<lparr>toolInput = []\<rparr>)],
                  requestCounter = 1, lastCwd = ''/tmp''\<rparr>]\<rparr> 6
      (ResumeSession ''s1'' ''c-42'' ''go'' ''/work'')))) ''s1'' = Some 1
   \<and> objects (snd (handleMessage ''/srv'' (Inr 9)
      \<lparr>sessions = [(''s1'', 0)], transports = [5, 6],
      objects = [\<lparr>sessionId = ''s1'', sendToClient = 5, activeQuery = Some 4,
                  claudeSessionId = None,
                  pendingRequests = [(''req_1'', \<lparr>toolInput = []\<rparr>)],
                  requestCounter = 1, lastCwd = ''/tmp''\<rparr>]\<rparr> 6
      (ResumeSession ''s1'' ''c-42'' ''go'' ''/work''))) ! 0
     = \<lparr>sessionId = ''s1'', sendToClient = 5, activeQuery = Some 4,
                  claudeSessionId = None,
                  pendingRequests = [(''req_1'', \<lparr>toolInput = []\<rparr>)],
                  requestCounter = 1, lastCwd = ''/tmp''\<rparr>"
  using resume_session_overwrites
    [of "\<lparr>sessions = [(''s1'', 0)], transports = [5, 6],
          objects = [\<lparr>sessionId = ''s1'', sendToClient = 5, activeQuery = Some 4,
                      claudeSessionId = None,
                      pendingRequests = [(''req_1'', \<lparr>toolInput = []\<rparr>)],
                      requestCounter = 1, lastCwd = ''/tmp''\<rparr>]\<rparr>" "''s1''" 0 "''/srv''" "Inr 9" 6 "''c-42''" "''go''" "''/work''"]
  by simp

end
